theory Spec2Isabelle
  imports Complex_Main
begin

section \<open>Data model of the Moulder canvas\<close>

text \<open>
  The embedding follows \<^verbatim>\<open>src/moulder/moulder.py\<close>. A vertex array (the \<^verbatim>\<open>xy\<close> attribute of
  a matplotlib polygon patch, an N-by-2 array) is a list of rows; the data of a
  \<^verbatim>\<open>Line2D\<close> is the pair of its x and y sequences. Coordinates are real numbers: the
  rounding of float64 arithmetic is outside the model, but the one place where the source
  produces a NaN by dividing zero by zero is written out (see \<open>angle_between\<close>).
  Display attributes of the artists (animation flag, colours, titles, the saved canvas
  background), the emitted Qt signals and the recomputation of the predicted curve do not
  influence the editing state and are left out.
\<close>

type_synonym point = "real \<times> real"

type_synonym polygon = "point list"

type_synonym line = "real list \<times> real list"

text \<open>
  The selected vertex \<^verbatim>\<open>_ivert\<close> is either a single index (the result of
  \<^verbatim>\<open>numpy.argmin\<close>) or a Python list of indices (the seam pair \<^verbatim>\<open>[0, last]\<close>).
\<close>

datatype vertex_ref = Idx nat | Idxs "nat list"

text \<open>
  A matplotlib mouse event. \<open>inaxes\<close> stands for \<^verbatim>\<open>event.inaxes == self.modelax\<close>;
  \<open>button\<close> is \<open>None\<close> when no button is involved; \<open>ev_x\<close>, \<open>ev_y\<close> are the pixel
  coordinates \<^verbatim>\<open>event.x\<close>, \<^verbatim>\<open>event.y\<close> and \<open>xdata\<close>, \<open>ydata\<close> the data coordinates.
\<close>

record mouse_event =
  inaxes :: bool
  button :: "nat option"
  ev_x :: real
  ev_y :: real
  xdata :: real
  ydata :: real

text \<open>
  The attributes of a \<^verbatim>\<open>Moulder\<close> object that the editing engine reads and writes.
  \<open>density\<close> is \<^verbatim>\<open>_density\<close>, \<open>add_vertex_flag\<close> is \<^verbatim>\<open>_add_vertex\<close>, \<open>xy\<close> is the draw
  buffer \<^verbatim>\<open>_xy\<close> (which the source sets to \<^verbatim>\<open>None\<close> on commit) and \<open>drawing_plot\<close> is
  the data of \<^verbatim>\<open>_drawing_plot\<close> (\<open>None\<close> when there is no such line).
\<close>

record state =
  polygons :: "polygon list"
  lines :: "line list"
  densities :: "real list"
  density :: real
  ivert :: "vertex_ref option"
  ipoly :: "nat option"
  lastevent :: "mouse_event option"
  drawing :: bool
  add_vertex_flag :: bool
  xy :: "point list option"
  drawing_plot :: "line option"

text \<open>
  Python exceptions are values. A handler that raises returns \<open>Inl (e, s)\<close>, where \<open>s\<close>
  holds the attributes as they are at the moment of the raise: the object outlives the
  exception and receives the next event in that state.
\<close>

datatype error = TypeError | IndexError | ValueError | AttributeError

type_synonym outcome = "(error \<times> state) + state"

section \<open>Python, numpy and matplotlib primitives\<close>

text \<open>\<^verbatim>\<open>xs[i]\<close> for a list and an index attribute that may be \<^verbatim>\<open>None\<close>.\<close>

definition getitem :: "'a list \<Rightarrow> nat option \<Rightarrow> error + 'a" where
  "getitem xs i =
     (case i of
        None \<Rightarrow> Inl TypeError
      | Some k \<Rightarrow> if k < length xs then Inr (xs ! k) else Inl IndexError)"

text \<open>\<^verbatim>\<open>xs.pop(k)\<close> and \<^verbatim>\<open>xs.insert(k, a)\<close> on a list, for an index in range.\<close>

definition pop_at :: "nat \<Rightarrow> 'a list \<Rightarrow> 'a list" where
  "pop_at k xs = take k xs @ drop (Suc k) xs"

definition insert_at :: "nat \<Rightarrow> 'a \<Rightarrow> 'a list \<Rightarrow> 'a list" where
  "insert_at k a xs = take k xs @ a # drop k xs"

text \<open>
  \<^verbatim>\<open>numpy.argmin\<close> and \<^verbatim>\<open>min\<close> of a one-dimensional array: the first position of the
  least entry, and the least entry. Both raise \<^verbatim>\<open>ValueError\<close> on an empty array.
\<close>

fun argmin_loop :: "real \<Rightarrow> nat \<Rightarrow> nat \<Rightarrow> real list \<Rightarrow> nat" where
  "argmin_loop best bi i [] = bi"
| "argmin_loop best bi i (a # as) =
     (if a < best then argmin_loop a i (Suc i) as else argmin_loop best bi (Suc i) as)"

definition np_argmin :: "real list \<Rightarrow> error + nat" where
  "np_argmin d = (case d of [] \<Rightarrow> Inl ValueError | a # as \<Rightarrow> Inr (argmin_loop a 0 1 as))"

definition np_min :: "real list \<Rightarrow> error + real" where
  "np_min d = (case d of [] \<Rightarrow> Inl ValueError | a # as \<Rightarrow> Inr (fold min as a))"

text \<open>
  \<^verbatim>\<open>numpy.argmax\<close> of an array of floats, \<open>None\<close> standing for NaN: a NaN counts as the
  greatest value, so the first NaN wins; otherwise the first position of the greatest
  entry.
\<close>

definition float_gt :: "real option \<Rightarrow> real option \<Rightarrow> bool" where
  "float_gt a best =
     (case best of
        None \<Rightarrow> False
      | Some b \<Rightarrow> (case a of None \<Rightarrow> True | Some c \<Rightarrow> b < c))"

fun argmax_loop :: "real option \<Rightarrow> nat \<Rightarrow> nat \<Rightarrow> real option list \<Rightarrow> nat" where
  "argmax_loop best bi i [] = bi"
| "argmax_loop best bi i (a # as) =
     (if float_gt a best then argmax_loop a i (Suc i) as
      else argmax_loop best bi (Suc i) as)"

definition np_argmax :: "real option list \<Rightarrow> error + nat" where
  "np_argmax d = (case d of [] \<Rightarrow> Inl ValueError | a # as \<Rightarrow> Inr (argmax_loop a 0 1 as))"

text \<open>
  \<^verbatim>\<open>Polygon.set_xy\<close> of matplotlib for a closed polygon (the default of the constructor,
  which the source never overrides): the first vertex is appended when the last one
  differs from it, so the stored array ends with the seam duplicate. An empty array has
  no second dimension to unpack and raises.
\<close>

definition set_xy :: "point list \<Rightarrow> error + polygon" where
  "set_xy v =
     (if v = [] then Inl ValueError
      else if length v = 1 \<or> hd v \<noteq> last v then Inr (v @ [hd v])
      else Inr v)"

text \<open>
  \<^verbatim>\<open>list(zip(*xy))\<close> unpacked into the x and y sequences of a line (by \<^verbatim>\<open>x, y = ...\<close>
  or by \<^verbatim>\<open>set_data\<close> with one argument): unpacking the empty list raises.
\<close>

definition zip_star :: "point list \<Rightarrow> error + line" where
  "zip_star pts = (if pts = [] then Inl ValueError else Inr (map fst pts, map snd pts))"

text \<open>\<^verbatim>\<open>numpy.atleast_1d(self._ivert)\<close>.\<close>

definition atleast_1d :: "vertex_ref \<Rightarrow> nat list" where
  "atleast_1d v = (case v of Idx i \<Rightarrow> [i] | Idxs js \<Rightarrow> js)"

text \<open>
  \<^verbatim>\<open>xy[v] = x, y\<close> on a vertex array: an integer index writes one row, a list of indices
  writes each of its rows; an index out of range raises before anything is written.
\<close>

definition setitem_xy :: "polygon \<Rightarrow> vertex_ref \<Rightarrow> point \<Rightarrow> error + polygon" where
  "setitem_xy poly v pt =
     (if list_all (\<lambda>i. i < length poly) (atleast_1d v)
      then Inr (fold (\<lambda>i a. a[i := pt]) (atleast_1d v) poly)
      else Inl IndexError)"

section \<open>The Moulder methods\<close>

definition epsilon :: real where
  "epsilon = 5"

text \<open>\<^verbatim>\<open>_init_markers\<close> together with the list attributes set by \<^verbatim>\<open>__init__\<close>.\<close>

definition init_markers :: state where
  "init_markers =
     \<lparr>polygons = [], lines = [], densities = [], density = 0,
      ivert = None, ipoly = None, lastevent = None, drawing = False,
      add_vertex_flag = False, xy = Some [], drawing_plot = None\<rparr>"

text \<open>The setter of the \<^verbatim>\<open>density\<close> property.\<close>

definition density_setter :: "state \<Rightarrow> real \<Rightarrow> outcome" where
  "density_setter s v =
     (let s1 = s\<lparr>density := v\<rparr> in
      case ipoly s1 of
        None \<Rightarrow> Inr s1
      | Some p \<Rightarrow>
          if p < length (densities s1) then
            (let s2 = s1\<lparr>densities := (densities s1)[p := v]\<rparr> in
             case getitem (polygons s2) (Some p) of
               Inl e \<Rightarrow> Inl (e, s2)
             | Inr _ \<Rightarrow> Inr s2)
          else Inl (IndexError, s1))"

definition add_vertex :: "state \<Rightarrow> state" where
  "add_vertex s = s\<lparr>add_vertex_flag := \<not> add_vertex_flag s\<rparr>"

definition new_polygon :: "state \<Rightarrow> state" where
  "new_polygon s =
     s\<lparr>ivert := None, ipoly := None, drawing := True, xy := Some [],
       drawing_plot := Some ([], [])\<rparr>"

definition cancel_drawing :: "state \<Rightarrow> state" where
  "cancel_drawing s =
     (if add_vertex_flag s then s\<lparr>add_vertex_flag := False\<rparr>
      else s\<lparr>drawing := False, xy := Some [], drawing_plot := None\<rparr>)"

text \<open>
  \<^verbatim>\<open>delete_polygon\<close>: in drawing mode with a non-empty buffer the last drawn point is
  dropped; otherwise a selected vertex reference is removed from its polygon when the
  vertex array has more than four rows; otherwise the selected polygon is removed.
\<close>

definition delete_polygon :: "state \<Rightarrow> outcome" where
  "delete_polygon s =
     (if drawing s \<and> xy s \<noteq> None \<and> xy s \<noteq> Some [] then
        (let buf = butlast (the (xy s)); s1 = s\<lparr>xy := Some buf\<rparr> in
         case drawing_plot s1 of
           None \<Rightarrow> Inl (AttributeError, s1)
         | Some _ \<Rightarrow>
             Inr (s1\<lparr>drawing_plot :=
                    Some (if buf \<noteq> [] then (map fst buf, map snd buf) else ([], []))\<rparr>))
      else if ivert s \<noteq> None then
        (case getitem (polygons s) (ipoly s) of
           Inl e \<Rightarrow> Inl (e, s)
         | Inr poly \<Rightarrow>
            (case getitem (lines s) (ipoly s) of
               Inl e \<Rightarrow> Inl (e, s)
             | Inr _ \<Rightarrow>
                if 4 < length poly then
                  (let verts = atleast_1d (the (ivert s)) in
                   case set_xy (map snd (filter (\<lambda>(i, pt). i \<notin> set verts)
                                                (enumerate 0 poly))) of
                     Inl e \<Rightarrow> Inl (e, s)
                   | Inr poly' \<Rightarrow>
                      (let s1 = s\<lparr>polygons := (polygons s)[the (ipoly s) := poly']\<rparr> in
                       case zip_star poly' of
                         Inl e \<Rightarrow> Inl (e, s1)
                       | Inr li \<Rightarrow>
                           Inr (s1\<lparr>lines := (lines s1)[the (ipoly s) := li],
                                   ivert := None\<rparr>)))
                else Inr s))
      else if ipoly s \<noteq> None then
        (let p = the (ipoly s) in
         if length (polygons s) \<le> p then Inl (IndexError, s)
         else if length (lines s) \<le> p then Inl (IndexError, s)
         else
           (let s1 = s\<lparr>polygons := pop_at p (polygons s), lines := pop_at p (lines s)\<rparr> in
            if length (densities s1) \<le> p then Inl (IndexError, s1)
            else Inr (s1\<lparr>densities := pop_at p (densities s1), ipoly := None\<rparr>)))
      else Inr s)"

text \<open>
  \<^verbatim>\<open>_make_polygon\<close>: the patch built from the vertices and the line through the stored
  (closed) vertex array. The density only sets the fill colour.
\<close>

definition make_polygon :: "point list \<Rightarrow> real \<Rightarrow> error + (polygon \<times> line)" where
  "make_polygon vertices dens =
     (case set_xy vertices of
        Inl e \<Rightarrow> Inl e
      | Inr poly \<Rightarrow>
         (case zip_star poly of
            Inl e \<Rightarrow> Inl e
          | Inr li \<Rightarrow> Inr (poly, li)))"

text \<open>
  \<^verbatim>\<open>_get_polygon_vertice_id\<close>. The projection of data coordinates to pixels
  (\<^verbatim>\<open>poly.get_transform().transform\<close>) and the containment test of matplotlib
  (\<^verbatim>\<open>poly.contains_point\<close>) are parameters \<open>tr\<close> and \<open>inside\<close>. The first loop collects,
  polygon by polygon, the least pixel distance of a vertex to the event and its position.
\<close>

definition pixel_distances :: "(point \<Rightarrow> point) \<Rightarrow> mouse_event \<Rightarrow> polygon \<Rightarrow> real list" where
  "pixel_distances tr ev poly =
     map (\<lambda>(x, y). sqrt ((x - ev_x ev)\<^sup>2 + (y - ev_y ev)\<^sup>2)) (map tr poly)"

fun nearest_loop ::
  "(point \<Rightarrow> point) \<Rightarrow> mouse_event \<Rightarrow> polygon list \<Rightarrow> error + (real list \<times> nat list)" where
  "nearest_loop tr ev [] = Inr ([], [])"
| "nearest_loop tr ev (poly # polys) =
     (case np_min (pixel_distances tr ev poly) of
        Inl e \<Rightarrow> Inl e
      | Inr m \<Rightarrow>
         (case np_argmin (pixel_distances tr ev poly) of
            Inl e \<Rightarrow> Inl e
          | Inr k \<Rightarrow>
             (case nearest_loop tr ev polys of
                Inl e \<Rightarrow> Inl e
              | Inr (distances, indices) \<Rightarrow> Inr (m # distances, k # indices))))"

fun first_containing ::
  "(polygon \<Rightarrow> point \<Rightarrow> bool) \<Rightarrow> point \<Rightarrow> nat \<Rightarrow> polygon list \<Rightarrow> nat option" where
  "first_containing inside pt i [] = None"
| "first_containing inside pt i (poly # polys) =
     (if inside poly pt then Some i else first_containing inside pt (Suc i) polys)"

definition get_polygon_vertice_id ::
  "(point \<Rightarrow> point) \<Rightarrow> (polygon \<Rightarrow> point \<Rightarrow> bool) \<Rightarrow> state \<Rightarrow> mouse_event
     \<Rightarrow> error + (nat option \<times> vertex_ref option)" where
  "get_polygon_vertice_id tr inside s ev =
     (case nearest_loop tr ev (polygons s) of
        Inl e \<Rightarrow> Inl e
      | Inr (distances, indices) \<Rightarrow>
         (case np_argmin distances of
            Inl e \<Rightarrow> Inl e
          | Inr p \<Rightarrow>
             if epsilon \<le> distances ! p then
               Inr (first_containing inside (ev_x ev, ev_y ev) 0 (polygons s), None)
             else
               (let v = indices ! p; last = length (polygons s ! p) - 1 in
                if v = 0 \<or> v = last then Inr (Some p, Some (Idxs [0, last]))
                else Inr (Some p, Some (Idx v)))))"

text \<open>
  \<^verbatim>\<open>_add_new_vertex\<close>. For the vectors \<open>u\<close>, \<open>v\<close> from the event to the two ends of an edge
  the source computes \<^verbatim>\<open>arccos(sum(u*v) / sqrt(sum(u**2)) / sqrt(sum(v**2)))\<close>. When the
  event lies on an end of the edge, that vector and the dot product are zero and the
  quotient is 0/0, a NaN (\<open>None\<close>); in every other case the quotient is a cosine.
\<close>

definition angle_between :: "point \<Rightarrow> point \<Rightarrow> real option" where
  "angle_between u v =
     (if (fst u)\<^sup>2 + (snd u)\<^sup>2 = 0 \<or> (fst v)\<^sup>2 + (snd v)\<^sup>2 = 0 then None
      else Some (arccos ((fst u * fst v + snd u * snd v)
                          / sqrt ((fst u)\<^sup>2 + (snd u)\<^sup>2)
                          / sqrt ((fst v)\<^sup>2 + (snd v)\<^sup>2))))"

definition add_new_vertex :: "state \<Rightarrow> mouse_event \<Rightarrow> error + point list" where
  "add_new_vertex s ev =
     (case getitem (polygons s) (ipoly s) of
        Inl e \<Rightarrow> Inl e
      | Inr vertices \<Rightarrow>
         (let x = map fst vertices; y = map snd vertices;
              x1 = butlast x; y1 = butlast y;
              x2 = rotate1 x1; y2 = rotate1 y1;
              u = zip (map (\<lambda>a. a - xdata ev) x1) (map (\<lambda>a. a - ydata ev) y1);
              v = zip (map (\<lambda>a. a - xdata ev) x2) (map (\<lambda>a. a - ydata ev) y2);
              angle = map2 angle_between u v
          in case np_argmax angle of
               Inl e \<Rightarrow> Inl e
             | Inr k \<Rightarrow>
                 (let position = k + 1 in
                  Inr (zip (take position x @ xdata ev # drop position x)
                           (take position y @ ydata ev # drop position y)))))"

text \<open>
  \<^verbatim>\<open>_button_press_callback\<close>. In the armed branch the polygon and its line are replaced
  at the same list position (\<^verbatim>\<open>pop\<close> then \<^verbatim>\<open>insert\<close>).
\<close>

definition button_press_callback ::
  "(point \<Rightarrow> point) \<Rightarrow> (polygon \<Rightarrow> point \<Rightarrow> bool) \<Rightarrow> state \<Rightarrow> mouse_event \<Rightarrow> outcome" where
  "button_press_callback tr inside s ev =
     (if \<not> inaxes ev then Inr s
      else if button ev = Some 1 \<and> \<not> drawing s \<and> polygons s \<noteq> [] then
        (let s1 = s\<lparr>lastevent := Some ev\<rparr> in
         if \<not> add_vertex_flag s1 then
           (case get_polygon_vertice_id tr inside s1 ev of
              Inl e \<Rightarrow> Inl (e, s1)
            | Inr (p, v) \<Rightarrow>
               (let s2 = s1\<lparr>ipoly := p, ivert := v\<rparr> in
                if ipoly s2 \<noteq> None then
                  (case getitem (densities s2) (ipoly s2) of
                     Inl e \<Rightarrow> Inl (e, s2)
                   | Inr _ \<Rightarrow>
                      (case getitem (polygons s2) (ipoly s2) of
                         Inl e \<Rightarrow> Inl (e, s2)
                       | Inr _ \<Rightarrow>
                          (case getitem (lines s2) (ipoly s2) of
                             Inl e \<Rightarrow> Inl (e, s2)
                           | Inr _ \<Rightarrow> Inr s2)))
                else Inr s2))
         else if ipoly s1 \<noteq> None then
           (case add_new_vertex s1 ev of
              Inl e \<Rightarrow> Inl (e, s1)
            | Inr vertices \<Rightarrow>
               (case getitem (densities s1) (ipoly s1) of
                  Inl e \<Rightarrow> Inl (e, s1)
                | Inr dens \<Rightarrow>
                   (case make_polygon vertices dens of
                      Inl e \<Rightarrow> Inl (e, s1)
                    | Inr (poly, li) \<Rightarrow>
                       (case getitem (lines s1) (ipoly s1) of
                          Inl e \<Rightarrow> Inl (e, s1)
                        | Inr _ \<Rightarrow>
                           (let p = the (ipoly s1) in
                            Inr (s1\<lparr>polygons := insert_at p poly (pop_at p (polygons s1)),
                                    lines := insert_at p li (pop_at p (lines s1))\<rparr>))))))
         else Inr s1)
      else if drawing s then
        (if button ev = Some 1 then
           (case xy s of
              None \<Rightarrow> Inl (AttributeError, s)
            | Some buf \<Rightarrow>
               (let s1 = s\<lparr>xy := Some (buf @ [(xdata ev, ydata ev)])\<rparr> in
                case drawing_plot s1 of
                  None \<Rightarrow> Inl (AttributeError, s1)
                | Some _ \<Rightarrow>
                   (case zip_star (the (xy s1)) of
                      Inl e \<Rightarrow> Inl (e, s1)
                    | Inr li \<Rightarrow> Inr (s1\<lparr>drawing_plot := Some li\<rparr>))))
         else if button ev = Some 3 then
           (case xy s of
              None \<Rightarrow> Inl (TypeError, s)
            | Some buf \<Rightarrow>
               if 3 \<le> length buf then
                 (case make_polygon buf (density s) of
                    Inl e \<Rightarrow> Inl (e, s)
                  | Inr (poly, li) \<Rightarrow>
                     (let s1 = s\<lparr>polygons := polygons s @ [poly],
                                  lines := lines s @ [li],
                                  densities := densities s @ [density s]\<rparr> in
                      case drawing_plot s1 of
                        None \<Rightarrow> Inl (AttributeError, s1)
                      | Some _ \<Rightarrow>
                         (let s2 = s1\<lparr>drawing_plot := None, xy := None, drawing := False\<rparr>;
                              s3 = s2\<lparr>ipoly := Some (length (polygons s2) - 1)\<rparr> in
                          case getitem (lines s3) (ipoly s3) of
                            Inl e \<Rightarrow> Inl (e, s3)
                          | Inr _ \<Rightarrow> Inr s3)))
               else Inr s)
         else Inr s)
      else Inr s)"

text \<open>\<^verbatim>\<open>_button_release_callback\<close>.\<close>

definition button_release_callback :: "state \<Rightarrow> mouse_event \<Rightarrow> state" where
  "button_release_callback s ev =
     (if \<not> inaxes ev then s
      else if button ev \<noteq> Some 1 then s
      else
        (let s1 = (if add_vertex_flag s then s\<lparr>add_vertex_flag := False\<rparr> else s) in
         if ivert s1 = None \<and> ipoly s1 = None then s1
         else s1\<lparr>ivert := None, lastevent := None\<rparr>))"

text \<open>
  \<^verbatim>\<open>_mouse_move_callback\<close>. With a selected vertex reference the rows it names are
  overwritten with the pointer position; without one, every row is shifted by the
  difference between this event and the last one. Both writes go into the stored array
  in place, so \<^verbatim>\<open>set_xy\<close> is not involved.
\<close>

definition mouse_move_callback :: "state \<Rightarrow> mouse_event \<Rightarrow> outcome" where
  "mouse_move_callback s ev =
     (if \<not> inaxes ev then Inr s
      else if button ev \<noteq> Some 1 then Inr s
      else if ivert s = None \<and> ipoly s = None then Inr s
      else if add_vertex_flag s then Inr s
      else
        (let x = xdata ev; y = ydata ev; p = ipoly s; v = ivert s in
         case (if v \<noteq> None then
                 (case getitem (polygons s) p of
                    Inl e \<Rightarrow> Inl (e, s)
                  | Inr poly \<Rightarrow>
                     (case setitem_xy poly (the v) (x, y) of
                        Inl e \<Rightarrow> Inl (e, s)
                      | Inr poly' \<Rightarrow> Inr (s\<lparr>polygons := (polygons s)[the p := poly']\<rparr>)))
               else
                 (case lastevent s of
                    None \<Rightarrow> Inl (AttributeError, s)
                  | Some le \<Rightarrow>
                     (let dx = x - xdata le; dy = y - ydata le in
                      case getitem (polygons s) p of
                        Inl e \<Rightarrow> Inl (e, s)
                      | Inr poly \<Rightarrow>
                          Inr (s\<lparr>polygons :=
                                 (polygons s)[the p := map (\<lambda>(a, b). (a + dx, b + dy)) poly]\<rparr>))))
         of
           Inl e \<Rightarrow> Inl e
         | Inr s1 \<Rightarrow>
            (case getitem (lines s1) p of
               Inl e \<Rightarrow> Inl (e, s1)
             | Inr _ \<Rightarrow>
                (case zip_star (polygons s1 ! the p) of
                   Inl e \<Rightarrow> Inl (e, s1)
                 | Inr li \<Rightarrow>
                     Inr (s1\<lparr>lines := (lines s1)[the p := li], lastevent := Some ev\<rparr>)))))"

text \<open>\<^verbatim>\<open>keyPressEvent\<close>: the key R only resets the view limits.\<close>

datatype key = Key_D | Key_N | Key_Escape | Key_R | Key_A | Key_Other

definition keyPressEvent :: "state \<Rightarrow> key \<Rightarrow> outcome" where
  "keyPressEvent s k =
     (case k of
        Key_D \<Rightarrow> delete_polygon s
      | Key_N \<Rightarrow> Inr (new_polygon s)
      | Key_Escape \<Rightarrow> Inr (cancel_drawing s)
      | Key_R \<Rightarrow> Inr s
      | Key_A \<Rightarrow> Inr (add_vertex s)
      | Key_Other \<Rightarrow> Inr s)"

text \<open>
  Everything that reaches the object: the three canvas callbacks, a key press and the
  host writing the density property. A state is reachable when a sequence of these leads
  to it from the initial one, whether a handler returned or raised on the way.
\<close>

datatype input =
    ButtonPress mouse_event
  | ButtonRelease mouse_event
  | MotionNotify mouse_event
  | KeyPress key
  | SetDensity real

definition handle ::
  "(point \<Rightarrow> point) \<Rightarrow> (polygon \<Rightarrow> point \<Rightarrow> bool) \<Rightarrow> state \<Rightarrow> input \<Rightarrow> outcome" where
  "handle tr inside s i =
     (case i of
        ButtonPress ev \<Rightarrow> button_press_callback tr inside s ev
      | ButtonRelease ev \<Rightarrow> Inr (button_release_callback s ev)
      | MotionNotify ev \<Rightarrow> mouse_move_callback s ev
      | KeyPress k \<Rightarrow> keyPressEvent s k
      | SetDensity v \<Rightarrow> density_setter s v)"

definition state_after :: "outcome \<Rightarrow> state" where
  "state_after r = (case r of Inl (e, s) \<Rightarrow> s | Inr s \<Rightarrow> s)"

inductive reachable :: "(point \<Rightarrow> point) \<Rightarrow> (polygon \<Rightarrow> point \<Rightarrow> bool) \<Rightarrow> state \<Rightarrow> bool"
  for tr :: "point \<Rightarrow> point" and inside :: "polygon \<Rightarrow> point \<Rightarrow> bool" where
  reachable_init: "reachable tr inside init_markers"
| reachable_step: "reachable tr inside s \<Longrightarrow> reachable tr inside (state_after (handle tr inside s i))"

section \<open>Notions used to state the properties\<close>




text \<open>
  The angle subtended at a point \<open>q\<close> by the two ends of an edge, and the list of these
  angles over the edges of the ring: the vertex array without its last row, each row
  paired with its cyclic successor.
\<close>

definition subtended :: "point \<Rightarrow> point \<Rightarrow> point \<Rightarrow> real option" where
  "subtended q a b = angle_between (fst a - fst q, snd a - snd q) (fst b - fst q, snd b - snd q)"

definition edge_angles :: "polygon \<Rightarrow> point \<Rightarrow> real option list" where
  "edge_angles vs q = map2 (subtended q) (butlast vs) (rotate1 (butlast vs))"







text \<open>
  Concrete inputs: a triangle with its seam duplicate, the state right after that triangle
  was drawn and committed, and a mouse event inside the model axes whose pixel and data
  coordinates coincide, the identity projection that goes with it, and a containment
  test that holds for no point.
\<close>

definition triangle :: polygon where
  "triangle = [(0, 0), (10, 0), (5, 10), (0, 0)]"

definition triangle_state :: state where
  "triangle_state =
     \<lparr>polygons = [triangle], lines = [(map fst triangle, map snd triangle)],
      densities = [0], density = 0, ivert = None, ipoly = Some 0, lastevent = None,
      drawing = False, add_vertex_flag = False, xy = None, drawing_plot = None\<rparr>"

definition click :: "nat \<Rightarrow> real \<Rightarrow> real \<Rightarrow> mouse_event" where
  "click b a c = \<lparr>inaxes = True, button = Some b, ev_x = a, ev_y = c, xdata = a, ydata = c\<rparr>"

definition pixels_are_data :: "point \<Rightarrow> point" where
  "pixels_are_data pt = pt"

definition contains_nothing :: "polygon \<Rightarrow> point \<Rightarrow> bool" where
  "contains_nothing poly pt = False"

text \<open>Drawing states with three and with two buffered points, and a pending density.\<close>

definition three_points_state :: state where
  "three_points_state =
     \<lparr>polygons = [], lines = [], densities = [], density = 300,
      ivert = None, ipoly = None, lastevent = None, drawing = True,
      add_vertex_flag = False, xy = Some [(0, 0), (10, 0), (5, 10)],
      drawing_plot = Some ([0, 10, 5], [0, 0, 10])\<rparr>"

definition two_points_state :: state where
  "two_points_state =
     \<lparr>polygons = [], lines = [], densities = [], density = 300,
      ivert = None, ipoly = None, lastevent = None, drawing = True,
      add_vertex_flag = False, xy = Some [(0, 0), (10, 0)],
      drawing_plot = Some ([0, 10], [0, 0])\<rparr>"

text \<open>
  The triangle with vertex 1 selected and with the seam pair selected (its array has four
  rows), and a state with a second polygon, a square of five rows, whose vertex 2 is
  selected.
\<close>

definition four_rows_state :: state where
  "four_rows_state = triangle_state\<lparr>ivert := Some (Idx 1), lastevent := Some (click 1 10 0)\<rparr>"

definition square :: polygon where
  "square = [(0, 0), (4, 0), (4, 4), (0, 4), (0, 0)]"

definition square_state :: state where
  "square_state =
     \<lparr>polygons = [triangle, square],
      lines = [(map fst triangle, map snd triangle), (map fst square, map snd square)],
      densities = [0, 300], density = 300, ivert = Some (Idx 2), ipoly = Some 1,
      lastevent = Some (click 1 4 4),
      drawing = False, add_vertex_flag = False, xy = None, drawing_plot = None\<rparr>"

definition seam_state :: state where
  "seam_state = triangle_state\<lparr>ivert := Some (Idxs [0, 3]), lastevent := Some (click 1 0 0)\<rparr>"

text \<open>The committed triangle with the add-vertex mode armed, and in the middle of a drag.\<close>

definition armed_state :: state where
  "armed_state = triangle_state\<lparr>add_vertex_flag := True\<rparr>"


section \<open>Facts about the primitives\<close>









lemma length_pixel_distances [simp]: "length (pixel_distances tr ev poly) = length poly"
  by (simp add: pixel_distances_def)



lemma filter_enumerate_single:
  "v < length poly \<Longrightarrow>
   map snd (filter (\<lambda>(i, pt). i \<notin> set [v + n]) (enumerate n poly))
     = take v poly @ drop (Suc v) poly"
proof (induction poly arbitrary: v n)
  case Nil
  then show ?case by simp
next
  case (Cons a poly)
  show ?case
  proof (cases v)
    case 0
    have "filter (\<lambda>(i, pt). i \<noteq> n) (enumerate (Suc n) poly) = enumerate (Suc n) poly"
      by (rule filter_True) (auto simp: in_set_enumerate_eq)
    then show ?thesis using 0 by simp
  next
    case (Suc w)
    then have "w < length poly" using Cons.prems by simp
    from Cons.IH[OF this, of "Suc n"] show ?thesis using Suc by simp
  qed
qed

lemma argmax_loop_bound:
  "bi < i \<Longrightarrow> argmax_loop best bi i as < i + length as"
proof (induction as arbitrary: best bi i)
  case Nil
  then show ?case by simp
next
  case (Cons a as)
  have 1: "argmax_loop a i (Suc i) as < Suc i + length as"
    by (rule Cons.IH) simp
  have 2: "argmax_loop best bi (Suc i) as < Suc i + length as"
    by (rule Cons.IH) (use Cons.prems in simp)
  show ?case using 1 2 by simp
qed

lemma np_argmax_bound:
  "np_argmax d = Inr k \<Longrightarrow> k < length d"
  using argmax_loop_bound[of 0 1] by (auto simp: np_argmax_def split: list.splits)

lemma np_argmax_total:
  "d \<noteq> [] \<Longrightarrow> \<exists>k. np_argmax d = Inr k"
  by (cases d) (simp_all add: np_argmax_def)

lemma length_edge_angles [simp]: "length (edge_angles vs q) = length vs - 1"
  by (simp add: edge_angles_def)

lemma zip_columns:
  "zip (take n (map fst vs) @ a # drop n (map fst vs))
       (take n (map snd vs) @ b # drop n (map snd vs))
     = take n vs @ (a, b) # drop n vs"
  by (simp add: take_map drop_map zip_map_fst_snd flip: map_append)

lemma columns_angles:
  "map2 angle_between
     (zip (map (\<lambda>a. a - qx) (butlast (map fst vs))) (map (\<lambda>a. a - qy) (butlast (map snd vs))))
     (zip (map (\<lambda>a. a - qx) (rotate1 (butlast (map fst vs))))
          (map (\<lambda>a. a - qy) (rotate1 (butlast (map snd vs)))))
   = edge_angles vs (qx, qy)"
proof -
  let ?r = "butlast vs"
  have b1: "butlast (map fst vs) = map fst ?r" and b2: "butlast (map snd vs) = map snd ?r"
    by (simp_all add: map_butlast)
  have 1: "zip (map (\<lambda>a. a - qx) (butlast (map fst vs))) (map (\<lambda>a. a - qy) (butlast (map snd vs)))
            = map (\<lambda>a. (fst a - qx, snd a - qy)) ?r"
    unfolding b1 b2 by (simp add: zip_map_map zip_same_conv_map)
  have 2: "zip (map (\<lambda>a. a - qx) (rotate1 (butlast (map fst vs))))
               (map (\<lambda>a. a - qy) (rotate1 (butlast (map snd vs))))
            = map (\<lambda>a. (fst a - qx, snd a - qy)) (rotate1 ?r)"
    unfolding b1 b2 by (simp add: rotate1_map zip_map_map zip_same_conv_map)
  show ?thesis
    unfolding 1 2 edge_angles_def
    by (simp add: zip_map_map subtended_def split_def)
qed

lemma add_new_vertex_eq:
  assumes "getitem (polygons s) (ipoly s) = Inr vs" and "np_argmax (edge_angles vs (xdata ev, ydata ev)) = Inr k"
  shows "add_new_vertex s ev = Inr (take (Suc k) vs @ (xdata ev, ydata ev) # drop (Suc k) vs)"
  using assms by (simp add: add_new_vertex_def Let_def columns_angles zip_columns)


lemma insert_at_pop_at: "p < length xs \<Longrightarrow> insert_at p a (pop_at p xs) = xs[p := a]"
  by (simp add: insert_at_def pop_at_def upd_conv_take_nth_drop min_def)

lemma unarmed_press_polygons:
  assumes "\<not> drawing s" and "\<not> add_vertex_flag s"
  shows "polygons (state_after (button_press_callback tr inside s ev)) = polygons s"
  using assms
  by (simp add: button_press_callback_def state_after_def Let_def
           split: sum.splits prod.splits)

lemma sqrt_25: "sqrt 25 = 5"
  using real_sqrt_abs[of 5] by simp

lemma sqrt_100: "sqrt 100 = 10"
  using real_sqrt_abs[of 10] by simp

lemma armed_press_value:
  "button_press_callback pixels_are_data contains_nothing armed_state (click 1 5 0)
     = Inr (armed_state\<lparr>lastevent := Some (click 1 5 0),
              polygons := [[(0, 0), (5, 0), (10, 0), (5, 10), (0, 0)]],
              lines := [([0, 5, 10, 5, 0], [0, 0, 0, 10, 0])]\<rparr>)"
  by (simp add: button_press_callback_def armed_state_def triangle_state_def triangle_def
      click_def add_new_vertex_def getitem_def angle_between_def np_argmax_def float_gt_def
      make_polygon_def set_xy_def zip_star_def insert_at_def pop_at_def sqrt_25 sqrt_100 Let_def)

section \<open>C1: hit-test resolution\<close>



section \<open>C2: committing the draw buffer\<close>

text \<open>
  C2. In drawing mode (the buffer is a list and the drawing line exists), a click of
  button 3 inside the model axes with at least three buffered points appends exactly one
  polygon, the buffer closed by the seam duplicate, together with its line and the
  pending density, selects it, sets the buffer to \<^verbatim>\<open>None\<close> and leaves drawing mode; with
  fewer than three points the state is unchanged, so drawing continues.
\<close>

theorem secondary_click_commits:
  assumes "inaxes ev" and "button ev = Some 3" and "drawing s" and "xy s = Some buf"
    and "drawing_plot s \<noteq> None" and "length (lines s) = length (polygons s)"
  shows "button_press_callback tr inside s ev =
     (if 3 \<le> length buf then
        Inr (s\<lparr>polygons := polygons s @ [if hd buf = last buf then buf else buf @ [hd buf]],
               lines := lines s @ [if hd buf = last buf then (map fst buf, map snd buf)
                                   else (map fst (buf @ [hd buf]), map snd (buf @ [hd buf]))],
               densities := densities s @ [density s],
               ipoly := Some (length (polygons s)),
               drawing := False, xy := None, drawing_plot := None\<rparr>)
      else Inr s)"
proof (cases "3 \<le> length buf")
  case True
  then have ne: "buf \<noteq> []" and l1: "length buf \<noteq> 1" by auto
  show ?thesis
  proof (cases "hd buf = last buf")
    case same: True
    have mp: "make_polygon buf (density s) = Inr (buf, (map fst buf, map snd buf))"
      using ne l1 same by (simp add: make_polygon_def set_xy_def zip_star_def)
    show ?thesis using assms True same
      by (auto simp: button_press_callback_def mp getitem_def Let_def)
  next
    case diff: False
    have mp: "make_polygon buf (density s)
               = Inr (buf @ [hd buf], (map fst (buf @ [hd buf]), map snd (buf @ [hd buf])))"
      using ne diff by (simp add: make_polygon_def set_xy_def zip_star_def)
    show ?thesis using assms True diff
      by (auto simp: button_press_callback_def mp getitem_def Let_def)
  qed
next
  case False
  then show ?thesis using assms by (auto simp: button_press_callback_def)
qed

theorem secondary_click_commits_witness:
  "inaxes (click 3 1 1) \<and> button (click 3 1 1) = Some 3 \<and> drawing three_points_state
   \<and> xy three_points_state = Some [(0, 0), (10, 0), (5, 10)]
   \<and> drawing_plot three_points_state \<noteq> None
   \<and> length (lines three_points_state) = length (polygons three_points_state)
   \<and> button_press_callback pixels_are_data contains_nothing three_points_state (click 3 1 1)
       = Inr \<lparr>polygons = [[(0, 0), (10, 0), (5, 10), (0, 0)]],
              lines = [([0, 10, 5, 0], [0, 0, 10, 0])], densities = [300], density = 300,
              ivert = None, ipoly = Some 0, lastevent = None, drawing = False,
              add_vertex_flag = False, xy = None, drawing_plot = None\<rparr>
   \<and> drawing two_points_state \<and> xy two_points_state = Some [(0, 0), (10, 0)]
   \<and> button_press_callback pixels_are_data contains_nothing two_points_state (click 3 1 1)
       = Inr two_points_state"
  using secondary_click_commits[of "click 3 1 1" three_points_state "[(0, 0), (10, 0), (5, 10)]"
          pixels_are_data contains_nothing]
        secondary_click_commits[of "click 3 1 1" two_points_state "[(0, 0), (10, 0)]"
          pixels_are_data contains_nothing]
  by (simp add: click_def three_points_state_def two_points_state_def)

section \<open>C4: deleting a vertex\<close>

text \<open>
  C4 (amended). Outside the pop-last-point branch of drawing mode, for a selected closed
  polygon whose vertex array has more than four rows and a selected vertex \<open>v\<close> that is
  neither the first nor the last row, the delete command removes row \<open>v\<close>: the array has
  one row less, the rows before \<open>v\<close> keep their coordinates and the rows after it move
  up by one unchanged; every other polygon and all densities are unchanged, the polygon
  stays selected and the vertex selection is cleared.
\<close>

theorem delete_vertex_of_five_or_more:
  assumes "\<not> (drawing s \<and> xy s \<noteq> None \<and> xy s \<noteq> Some [])"
    and "ipoly s = Some p" and "p < length (polygons s)" and "p < length (lines s)"
    and "ivert s = Some (Idx v)" and "0 < v" and "v < length (polygons s ! p) - 1"
    and "4 < length (polygons s ! p)" and "hd (polygons s ! p) = last (polygons s ! p)"
  shows "\<exists>s'. delete_polygon s = Inr s'
     \<and> polygons s' = (polygons s)[p := take v (polygons s ! p) @ drop (Suc v) (polygons s ! p)]
     \<and> length (polygons s' ! p) = length (polygons s ! p) - 1
     \<and> (\<forall>i<v. polygons s' ! p ! i = polygons s ! p ! i)
     \<and> (\<forall>i. v \<le> i \<and> i < length (polygons s ! p) - 1
              \<longrightarrow> polygons s' ! p ! i = polygons s ! p ! Suc i)
     \<and> (\<forall>q. q \<noteq> p \<longrightarrow> polygons s' ! q = polygons s ! q)
     \<and> densities s' = densities s \<and> ipoly s' = ipoly s \<and> ivert s' = None"
proof -
  let ?poly = "polygons s ! p"
  let ?new = "take v ?poly @ drop (Suc v) ?poly"
  have v: "v < length ?poly" using assms(7) by simp
  have filt: "map snd (filter (\<lambda>(i, pt). i \<notin> set [v]) (enumerate 0 ?poly)) = ?new"
    using filter_enumerate_single[OF v, of 0] by simp
  have len: "length ?new = length ?poly - 1" using v by simp
  have "length ?new \<noteq> 0" using len assms(8) by linarith
  then have ne: "?new \<noteq> []" by blast
  have hd_new: "hd ?new = hd ?poly" using assms(6) v by (cases ?poly) auto
  have last_new: "last ?new = last ?poly" using assms(7) v
    by (simp add: last_drop)
  have sx: "set_xy ?new = Inr ?new"
    using ne len assms(8,9) hd_new last_new by (simp add: set_xy_def)
  have zs: "zip_star ?new = Inr (map fst ?new, map snd ?new)"
    using ne by (simp add: zip_star_def)
  let ?s' = "s\<lparr>polygons := (polygons s)[p := ?new],
               lines := (lines s)[p := (map fst ?new, map snd ?new)], ivert := None\<rparr>"
  have del: "delete_polygon s = Inr ?s'"
    unfolding delete_polygon_def if_not_P[OF assms(1)]
    using assms(2-5,8) filt sx zs
    by (simp add: getitem_def atleast_1d_def Let_def)
  have before: "\<forall>i<v. ?new ! i = ?poly ! i" using v by (simp add: nth_append)
  have after: "\<forall>i. v \<le> i \<and> i < length ?poly - 1 \<longrightarrow> ?new ! i = ?poly ! Suc i"
    using v by (auto simp: nth_append min_def)
  show ?thesis
    apply (rule exI[of _ ?s'])
    using del len before after assms(2,3) by simp
qed


theorem delete_vertex_of_five_or_more_witness:
  "\<not> (drawing square_state \<and> xy square_state \<noteq> None \<and> xy square_state \<noteq> Some [])
   \<and> ipoly square_state = Some 1 \<and> ivert square_state = Some (Idx 2)
   \<and> length (polygons square_state ! 1) = 5
   \<and> hd (polygons square_state ! 1) = last (polygons square_state ! 1)
   \<and> (\<exists>s'. delete_polygon square_state = Inr s'
        \<and> polygons s' = [triangle, [(0, 0), (4, 0), (0, 4), (0, 0)]]
        \<and> densities s' = [0, 300] \<and> ipoly s' = Some 1 \<and> ivert s' = None)"
  using delete_vertex_of_five_or_more[of square_state 1 2]
  by (simp add: square_state_def square_def, blast)

text \<open>
  With exactly four rows the guard \<^verbatim>\<open>len(poly.xy) > 4\<close> fails and nothing is removed, so
  the property does not hold from four rows on.
\<close>

theorem delete_vertex_of_four_counterexample:
  "\<not> drawing four_rows_state \<and> ipoly four_rows_state = Some 0
   \<and> ivert four_rows_state = Some (Idx 1)
   \<and> length (polygons four_rows_state ! 0) = 4
   \<and> delete_polygon four_rows_state = Inr four_rows_state"
  by (simp add: delete_polygon_def four_rows_state_def triangle_state_def triangle_def
      getitem_def)

section \<open>C5: the minimum polygon\<close>

text \<open>
  C5. With a vertex reference selected on a polygon whose vertex array has exactly four
  rows, the delete command returns without an exception and leaves the whole state, and
  so the polygon, the polygon list and the densities, as it was.
\<close>

theorem delete_vertex_of_four_is_noop:
  assumes "\<not> (drawing s \<and> xy s \<noteq> None \<and> xy s \<noteq> Some [])"
    and "ivert s \<noteq> None" and "ipoly s = Some p"
    and "p < length (polygons s)" and "p < length (lines s)"
    and "length (polygons s ! p) = 4"
  shows "delete_polygon s = Inr s"
  unfolding delete_polygon_def if_not_P[OF assms(1)]
  using assms(2-6) by (simp add: getitem_def)

theorem delete_vertex_of_four_is_noop_witness:
  "\<not> (drawing seam_state \<and> xy seam_state \<noteq> None \<and> xy seam_state \<noteq> Some [])
   \<and> ivert seam_state = Some (Idxs [0, 3]) \<and> ipoly seam_state = Some 0
   \<and> length (polygons seam_state ! 0) = 4
   \<and> delete_polygon seam_state = Inr seam_state"
  using delete_vertex_of_four_is_noop[of seam_state 0]
  by (simp add: seam_state_def triangle_state_def triangle_def)

section \<open>C6: cancel\<close>



section \<open>C7: the armed add-vertex mode\<close>

text \<open>
  C7 (amended). An armed press of button 1 inside the model axes on a selected closed
  polygon inserts the event point as one new row (after row \<open>k\<close> for an edge \<open>k\<close> of the
  ring) and leaves the mode armed and the polygon selected. The release of button 1 that
  follows inside the model axes disarms the mode: after it the polygon is still selected
  and unchanged, and no further press inserts a vertex, whatever the event.
\<close>

theorem armed_click_then_release:
  assumes "inaxes ev" and "button ev = Some 1" and "\<not> drawing s" and "add_vertex_flag s"
    and "ipoly s = Some p" and "p < length (polygons s)" and "p < length (lines s)"
    and "p < length (densities s)"
    and "2 \<le> length (polygons s ! p)" and "hd (polygons s ! p) = last (polygons s ! p)"
    and "inaxes ev'" and "button ev' = Some 1"
  shows "\<exists>s1. button_press_callback tr inside s ev = Inr s1
     \<and> add_vertex_flag s1 \<and> ipoly s1 = Some p
     \<and> (\<exists>k<length (polygons s ! p) - 1.
           polygons s1 ! p = take (Suc k) (polygons s ! p) @ (xdata ev, ydata ev)
                               # drop (Suc k) (polygons s ! p))
     \<and> length (polygons s1 ! p) = Suc (length (polygons s ! p))
     \<and> \<not> add_vertex_flag (button_release_callback s1 ev')
     \<and> ipoly (button_release_callback s1 ev') = Some p
     \<and> polygons (button_release_callback s1 ev') = polygons s1
     \<and> (\<forall>ev''. polygons (state_after (button_press_callback tr inside
                                          (button_release_callback s1 ev') ev''))
                  = polygons s1)"
proof -
  let ?vs = "polygons s ! p"
  let ?q = "(xdata ev, ydata ev)"
  let ?s0 = "s\<lparr>lastevent := Some ev\<rparr>"
  have gi: "getitem (polygons ?s0) (ipoly ?s0) = Inr ?vs"
    using assms(5,6) by (simp add: getitem_def)
  have "length (edge_angles ?vs ?q) \<noteq> 0"
    using assms(9) by simp
  then have "edge_angles ?vs ?q \<noteq> []" by blast
  from np_argmax_total[OF this] obtain k where k: "np_argmax (edge_angles ?vs ?q) = Inr k"
    by blast
  have kb: "k < length ?vs - 1" using np_argmax_bound[OF k] by simp
  let ?new = "take (Suc k) ?vs @ ?q # drop (Suc k) ?vs"
  have anv: "add_new_vertex ?s0 ev = Inr ?new"
    using add_new_vertex_eq[OF gi k] .
  have vne: "?vs \<noteq> []" using assms(9) by auto
  have sk: "Suc k < length ?vs" using kb by simp
  have hd_new: "hd ?new = hd ?vs" using vne by (cases ?vs) simp_all
  have dne: "drop (Suc k) ?vs \<noteq> []" using sk by simp
  have last_new: "last ?new = last ?vs" using dne sk by (simp add: last_drop)
  have len_new: "length ?new = Suc (length ?vs)" using sk by simp
  have new_ne: "?new \<noteq> []" by simp
  have "length ?vs \<noteq> 0" using vne by blast
  then have l1: "length ?new \<noteq> 1" unfolding len_new by linarith
  have eq: "hd ?new = last ?new" using hd_new last_new assms(10) by (simp only:)
  have c: "\<not> (length ?new = 1 \<or> hd ?new \<noteq> last ?new)" using l1 eq by blast
  have sx: "set_xy ?new = Inr ?new"
    by (subst set_xy_def) (simp only: new_ne c if_False)
  have mp: "make_polygon ?new (densities s ! p) = Inr (?new, (map fst ?new, map snd ?new))"
    unfolding make_polygon_def sx by (simp add: zip_star_def)
  let ?s1 = "?s0\<lparr>polygons := (polygons s)[p := ?new],
                  lines := (lines s)[p := (map fst ?new, map snd ?new)]\<rparr>"
  have pne: "polygons s \<noteq> []" using assms(6) by auto
  have c1: "button ev = Some 1 \<and> \<not> drawing s \<and> polygons s \<noteq> []"
    using assms(2,3) pne by simp
  have fl: "add_vertex_flag ?s0" and ip: "ipoly ?s0 = Some p" using assms(4,5) by simp_all
  have gd: "getitem (densities ?s0) (ipoly ?s0) = Inr (densities s ! p)"
    and gl: "getitem (lines ?s0) (ipoly ?s0) = Inr (lines s ! p)"
    using assms(5,7,8) by (simp_all add: getitem_def)
  have n1: "\<not> \<not> inaxes ev" using assms(1) by simp
  have n2: "\<not> \<not> add_vertex_flag ?s0" using fl by simp
  have n3: "ipoly ?s0 \<noteq> None" using ip by simp
  have press: "button_press_callback tr inside s ev = Inr ?s1"
    unfolding button_press_callback_def Let_def if_not_P[OF n1] if_P[OF c1]
      if_not_P[OF n2] if_P[OF n3]
    using assms(5-8) by (simp add: insert_at_pop_at anv mp getitem_def)
  let ?s2 = "button_release_callback ?s1 ev'"
  have r1: "\<not> add_vertex_flag ?s2" and r2: "ipoly ?s2 = Some p"
    and r3: "polygons ?s2 = polygons ?s1" and r4: "\<not> drawing ?s2"
    using assms(3,5,11,12) by (simp_all add: button_release_callback_def Let_def)
  have next_press: "\<forall>ev''. polygons (state_after (button_press_callback tr inside ?s2 ev''))
                      = polygons ?s1"
    using unarmed_press_polygons[OF r4 r1] r3 by simp
  have ins: "\<exists>k<length ?vs - 1. polygons ?s1 ! p = take (Suc k) ?vs @ ?q # drop (Suc k) ?vs"
    using kb assms(6) by (intro exI[of _ k]) simp
  have len1: "length (polygons ?s1 ! p) = Suc (length ?vs)"
    using assms(6) len_new by simp
  have f1: "add_vertex_flag ?s1" and i1: "ipoly ?s1 = Some p" using assms(4,5) by simp_all
  show ?thesis
    by (intro exI[of _ ?s1] conjI press f1 i1 ins len1 r1 r2 r3 next_press)
qed

theorem armed_click_then_release_witness:
  "inaxes (click 1 5 0) \<and> button (click 1 5 0) = Some 1 \<and> \<not> drawing armed_state
   \<and> add_vertex_flag armed_state \<and> ipoly armed_state = Some 0
   \<and> hd (polygons armed_state ! 0) = last (polygons armed_state ! 0)
   \<and> (\<exists>s1. button_press_callback pixels_are_data contains_nothing armed_state (click 1 5 0)
              = Inr s1
         \<and> add_vertex_flag s1 \<and> length (polygons s1 ! 0) = 5
         \<and> \<not> add_vertex_flag (button_release_callback s1 (click 1 6 1)))"
proof -
  have h: "inaxes (click 1 5 0)" "button (click 1 5 0) = Some 1" "\<not> drawing armed_state"
    "add_vertex_flag armed_state" "ipoly armed_state = Some 0"
    "0 < length (polygons armed_state)" "0 < length (lines armed_state)"
    "0 < length (densities armed_state)" "2 \<le> length (polygons armed_state ! 0)"
    "hd (polygons armed_state ! 0) = last (polygons armed_state ! 0)"
    "inaxes (click 1 6 1)" "button (click 1 6 1) = Some 1"
    by (simp_all add: armed_state_def triangle_state_def triangle_def click_def)
  have len: "length (polygons armed_state ! 0) = 4"
    by (simp add: armed_state_def triangle_state_def triangle_def)
  from armed_click_then_release[OF h, of pixels_are_data contains_nothing]
  obtain s1 where s1:
    "button_press_callback pixels_are_data contains_nothing armed_state (click 1 5 0) = Inr s1"
    "add_vertex_flag s1" "length (polygons s1 ! 0) = Suc (length (polygons armed_state ! 0))"
    "\<not> add_vertex_flag (button_release_callback s1 (click 1 6 1))"
    by blast
  have "length (polygons s1 ! 0) = 5" using s1(3) len by simp
  then show ?thesis using h(1-5,10) s1(1,2,4) by blast
qed

text \<open>
  An armed click on the middle of the first edge of the triangle: the press inserts the
  point, the release leaves the mode disarmed.
\<close>

theorem release_disarms_counterexample:
  "add_vertex_flag armed_state \<and> ipoly armed_state = Some 0
   \<and> button_press_callback pixels_are_data contains_nothing armed_state (click 1 5 0)
     = Inr (armed_state\<lparr>lastevent := Some (click 1 5 0),
              polygons := [[(0, 0), (5, 0), (10, 0), (5, 10), (0, 0)]],
              lines := [([0, 5, 10, 5, 0], [0, 0, 0, 10, 0])]\<rparr>)
   \<and> \<not> add_vertex_flag
        (button_release_callback
           (armed_state\<lparr>lastevent := Some (click 1 5 0),
              polygons := [[(0, 0), (5, 0), (10, 0), (5, 10), (0, 0)]],
              lines := [([0, 5, 10, 5, 0], [0, 0, 0, 10, 0])]\<rparr>)
           (click 1 5 0))"
  using armed_press_value
  by (simp add: button_release_callback_def armed_state_def triangle_state_def click_def)

section \<open>C8: dragging a polygon\<close>




section \<open>C9: dragging the seam\<close>

text \<open>
  C9. With the seam pair \<open>[0, last]\<close> of the selected polygon as the selected vertex
  reference (the mode not armed), a move event with button 1 inside the model axes writes
  the data coordinates of the event into row 0 and into the last row of the vertex array,
  so the two seam rows hold the same new coordinate; the rows in between, the other
  polygons and the selection are unchanged.
\<close>

theorem drag_moves_both_seam_rows:
  assumes "inaxes ev" and "button ev = Some 1" and "\<not> add_vertex_flag s"
    and "ipoly s = Some p" and "p < length (polygons s)" and "p < length (lines s)"
    and "polygons s ! p \<noteq> []"
    and "ivert s = Some (Idxs [0, length (polygons s ! p) - 1])"
  shows "\<exists>s'. mouse_move_callback s ev = Inr s'
     \<and> length (polygons s' ! p) = length (polygons s ! p)
     \<and> polygons s' ! p ! 0 = (xdata ev, ydata ev)
     \<and> polygons s' ! p ! (length (polygons s ! p) - 1) = (xdata ev, ydata ev)
     \<and> (\<forall>i. 0 < i \<and> i < length (polygons s ! p) - 1
              \<longrightarrow> polygons s' ! p ! i = polygons s ! p ! i)
     \<and> (\<forall>q. q \<noteq> p \<longrightarrow> polygons s' ! q = polygons s ! q)
     \<and> ipoly s' = ipoly s \<and> ivert s' = ivert s"
proof -
  let ?poly = "polygons s ! p"
  let ?last = "length ?poly - 1"
  let ?pt = "(xdata ev, ydata ev)"
  let ?new = "?poly[0 := ?pt, ?last := ?pt]"
  have l: "?last < length ?poly" and z: "0 < length ?poly" using assms(7) by simp_all
  have si: "setitem_xy ?poly (Idxs [0, ?last]) ?pt = Inr ?new"
    using l z by (simp add: setitem_xy_def atleast_1d_def)
  have ne: "?new \<noteq> []" using assms(7) by simp
  have zs: "zip_star ?new = Inr (map fst ?new, map snd ?new)"
    using ne by (simp only: zip_star_def if_False)
  let ?s' = "s\<lparr>polygons := (polygons s)[p := ?new],
               lines := (lines s)[p := (map fst ?new, map snd ?new)],
               lastevent := Some ev\<rparr>"
  have mv: "mouse_move_callback s ev = Inr ?s'"
    using assms(1-6,8) si zs by (simp add: mouse_move_callback_def getitem_def Let_def)
  have n0: "?new ! 0 = ?pt" using z l by (cases "?last = 0") simp_all
  have nl: "?new ! ?last = ?pt" using l by simp
  have mid: "\<forall>i. 0 < i \<and> i < ?last \<longrightarrow> ?new ! i = ?poly ! i" by simp
  show ?thesis
    apply (rule exI[of _ ?s'])
    using mv n0 nl mid assms(5) by simp
qed

theorem drag_moves_both_seam_rows_witness:
  "inaxes (click 1 2 3) \<and> button (click 1 2 3) = Some 1 \<and> \<not> add_vertex_flag seam_state
   \<and> ipoly seam_state = Some 0
   \<and> ivert seam_state = Some (Idxs [0, length (polygons seam_state ! 0) - 1])
   \<and> (\<exists>s'. mouse_move_callback seam_state (click 1 2 3) = Inr s'
         \<and> polygons s' ! 0 ! 0 = (2, 3) \<and> polygons s' ! 0 ! 3 = (2, 3)
         \<and> length (polygons s' ! 0) = 4)"
proof -
  have h: "inaxes (click 1 2 3)" "button (click 1 2 3) = Some 1"
    "\<not> add_vertex_flag seam_state" "ipoly seam_state = Some 0"
    "0 < length (polygons seam_state)" "0 < length (lines seam_state)"
    "polygons seam_state ! 0 \<noteq> []"
    "ivert seam_state = Some (Idxs [0, length (polygons seam_state ! 0) - 1])"
    by (simp_all add: seam_state_def triangle_state_def triangle_def click_def)
  have len: "length (polygons seam_state ! 0) = 4"
    by (simp add: seam_state_def triangle_state_def triangle_def)
  from drag_moves_both_seam_rows[OF h]
  obtain s' where s': "mouse_move_callback seam_state (click 1 2 3) = Inr s'"
    "length (polygons s' ! 0) = length (polygons seam_state ! 0)"
    "polygons s' ! 0 ! 0 = (xdata (click 1 2 3), ydata (click 1 2 3))"
    "polygons s' ! 0 ! (length (polygons seam_state ! 0) - 1)
       = (xdata (click 1 2 3), ydata (click 1 2 3))"
    by blast
  have a: "polygons s' ! 0 ! 0 = (2, 3)" using s'(3) by (simp add: click_def)
  have b: "polygons s' ! 0 ! 3 = (2, 3)" using s'(4) by (simp add: len click_def)
  have c: "length (polygons s' ! 0) = 4" using s'(2) len by simp
  show ?thesis using h(1-4,8) s'(1) a b c by blast
qed

section \<open>C10: the selection stays valid\<close>





























section \<open>C3: the insertion rule\<close>




























lemma len: "length (butlast square) = 4" by (simp add: square_def)



end
